theory Spec2Isabelle
  imports Main "HOL-Library.Word"
begin

unbundle bit_operations_syntax

section \<open>The kvm2 machine driver (pkg/kvm/kvm.go)\<close>

text \<open>
  The driver orchestrates calls to collaborators that live outside kvm.go: libvirt
  (through the helpers getDomain, closeDomain, lookupIP, createNetwork, createDomain and
  getConnection of the same package), libmachine (WaitForSSH), the disk provisioner
  (MakeDiskImage), the clock (time.Sleep) and the operating system (os.MkdirAll, os.Stat,
  os.Chmod).  The embedding keeps the driver's own control flow and takes every
  collaborator as a parameter: an environment of functions over an abstract world
  \<open>'w\<close>.  Each call the driver issues is appended to a trace, so that "the driver
  never asks for X" is a property of the trace.  Log output is not modelled.
\<close>

subsection \<open>Errors\<close>

text \<open>
  \<open>errors.New msg\<close>, \<open>errors.Wrap err msg\<close>, and the one \<open>fmt.Errorf\<close> of the file,
  whose single \<open>%s\<close> argument is a lifecycle state.
\<close>

datatype State =
    state_None
  | state_Running
  | state_Paused
  | state_Saved
  | state_Stopped
  | state_Error

datatype error =
    New string
  | Wrap error string
  | Errorf string State

subsection \<open>Native domain states\<close>

text \<open>
  \<open>libvirt.DomainState\<close> is an integer type of libvirt-go.  Its named constants are
  declared there, not in kvm.go; they are given the values of libvirt's
  \<open>virDomainState\<close> enumeration, which the comment in GetState lists in this order.
  Nothing below depends on the values beyond their being pairwise distinct.
\<close>

type_synonym DomainState = int

definition DOMAIN_NOSTATE :: DomainState where "DOMAIN_NOSTATE = 0"
definition DOMAIN_RUNNING :: DomainState where "DOMAIN_RUNNING = 1"
definition DOMAIN_BLOCKED :: DomainState where "DOMAIN_BLOCKED = 2"
definition DOMAIN_PAUSED :: DomainState where "DOMAIN_PAUSED = 3"
definition DOMAIN_SHUTDOWN :: DomainState where "DOMAIN_SHUTDOWN = 4"
definition DOMAIN_SHUTOFF :: DomainState where "DOMAIN_SHUTOFF = 5"
definition DOMAIN_CRASHED :: DomainState where "DOMAIN_CRASHED = 6"
definition DOMAIN_PMSUSPENDED :: DomainState where "DOMAIN_PMSUSPENDED = 7"

subsection \<open>Paths and the file system\<close>

text \<open>
  A cleaned path, as \<open>filepath.Join\<close> returns it, is absolute or relative.  \<open>Abs cs\<close>
  has the components \<open>cs\<close> below the root: \<open>Abs []\<close> is \<open>"/"\<close> and \<open>Abs [''a'', ''b'']\<close>
  is \<open>"/a/b"\<close>.  \<open>Rel cs\<close> has the components \<open>cs\<close> below the working directory:
  \<open>Rel []\<close> is \<open>"."\<close> and \<open>Rel [''a'', ''b'']\<close> is \<open>"a/b"\<close> (a component may be
  \<open>".."\<close>).  \<open>filepath.Dir\<close> drops the last component; it maps \<open>"/"\<close> to \<open>"/"\<close> and
  \<open>"."\<close> to \<open>"."\<close>, so from a relative path it never arrives at \<open>"/"\<close>.

  \<open>os.FileMode\<close> is a 32-bit value: the low nine bits are the Unix permission bits, the
  high bits say what kind of file it is and carry setuid, setgid and sticky.
\<close>

datatype path = Abs "string list" | Rel "string list"

type_synonym FileMode = "32 word"

fun filepath_Dir :: "path \<Rightarrow> path" where
  "filepath_Dir (Abs cs) = Abs (butlast cs)"
| "filepath_Dir (Rel cs) = Rel (butlast cs)"

text \<open>
  The operating system's side of \<open>os.Stat\<close> and \<open>os.Chmod\<close>.  A file system maps a
  name to its inode, if there is one; two names are two inodes (no links).  \<open>chmod_ok\<close>
  says whether the calling process may change the mode of that inode (it owns it, and
  the inode is neither immutable nor on a read-only mount).  \<open>in_group\<close> says whether
  the process is privileged or a member of the inode's group: when it is not,
  \<open>chmod(2)\<close> clears the setgid bit, without an error.  \<open>os.Chmod\<close> passes the
  permission bits and setuid, setgid and sticky to \<open>chmod(2)\<close>; the kind of the file is
  not its to change.
\<close>

record inode =
  mode :: FileMode
  chmod_ok :: bool
  in_group :: bool

type_synonym filesystem = "path \<Rightarrow> inode option"

definition ModeDir :: FileMode where "ModeDir = push_bit 31 1"
definition ModeSetuid :: FileMode where "ModeSetuid = push_bit 23 1"
definition ModeSetgid :: FileMode where "ModeSetgid = push_bit 22 1"
definition ModeSticky :: FileMode where "ModeSticky = push_bit 20 1"
definition ModePerm :: FileMode where "ModePerm = 511" \<comment> \<open>octal 0777\<close>

definition chmod_mask :: FileMode where
  "chmod_mask = ModePerm OR ModeSetuid OR ModeSetgid OR ModeSticky"

definition os_Stat :: "path \<Rightarrow> filesystem \<Rightarrow> error + FileMode" where
  "os_Stat p f = (case f p of
       None \<Rightarrow> Inl (New ''stat: no such file or directory'')
     | Some i \<Rightarrow> Inr (mode i))"

text \<open>The mode an inode has after a permitted \<open>chmod\<close> to \<open>m\<close>.\<close>

definition chmod_mode :: "inode \<Rightarrow> FileMode \<Rightarrow> FileMode" where
  "chmod_mode i m =
     (let new = (mode i AND NOT chmod_mask) OR (m AND chmod_mask)
      in if in_group i then new else new AND NOT ModeSetgid)"

definition os_Chmod :: "path \<Rightarrow> FileMode \<Rightarrow> filesystem \<Rightarrow> error option \<times> filesystem" where
  "os_Chmod p m f = (case f p of
       None \<Rightarrow> (Some (New ''chmod: no such file or directory''), f)
     | Some i \<Rightarrow>
         if chmod_ok i
         then (None, f(p \<mapsto> i\<lparr>mode := chmod_mode i m\<rparr>))
         else (Some (New ''chmod: operation not permitted''), f))"

subsection \<open>The driver, its collaborators and the trace\<close>

text \<open>
  The fields of \<open>Driver\<close> that kvm.go reads or writes.  \<open>StoreDir\<close> stands for the value
  of \<open>d.ResolveStorePath(".")\<close>, which libmachine computes from the store path and the
  machine name.
\<close>

record Driver =
  MachineName :: string
  PrivateNetwork :: string
  StoreDir :: path
  Boot2DockerURL :: string
  DiskSize :: int
  IPAddress :: string

type_synonym handle = nat

datatype call =
    C_getDomain
  | C_closeDomain
  | C_dom_GetState
  | C_dom_Create
  | C_dom_Shutdown
  | C_dom_Destroy
  | C_dom_Undefine
  | C_dom_Free
  | C_lookupIP
  | C_WaitForSSH
  | C_Sleep nat
  | C_createNetwork
  | C_MkdirAll path
  | C_Stat path
  | C_Chmod path FileMode
  | C_MakeDiskImage
  | C_createDomain
  | C_getConnection
  | C_conn_Close
  | C_LookupNetworkByName string
  | C_LookupDomainByName string
  | C_net_Destroy
  | C_net_Undefine

text \<open>
  The collaborators.  A Go function returning \<open>(x, err)\<close> is a function to \<open>error + 'a\<close>
  where the driver looks at \<open>x\<close> only when \<open>err\<close> is nil; the two lookups of Remove
  return the pair, since Remove tests the handle and the error separately.  Every
  collaborator may change the world: the hypervisor works asynchronously, so the same
  query can answer differently the next time.  No collaborator writes a field of the
  driver; the driver's fields change only where kvm.go assigns them.
\<close>

record 'w env =
  getDomain :: "string \<Rightarrow> 'w \<Rightarrow> (error + handle \<times> handle) \<times> 'w"
  closeDomain :: "(handle \<times> handle) option \<Rightarrow> 'w \<Rightarrow> 'w"
  dom_GetState :: "handle \<Rightarrow> 'w \<Rightarrow> (error + DomainState) \<times> 'w"
  dom_Create :: "handle \<Rightarrow> 'w \<Rightarrow> error option \<times> 'w"
  dom_Shutdown :: "handle \<Rightarrow> 'w \<Rightarrow> error option \<times> 'w"
  dom_Destroy :: "handle \<Rightarrow> 'w \<Rightarrow> error option \<times> 'w"
  dom_Undefine :: "handle \<Rightarrow> 'w \<Rightarrow> error option \<times> 'w"
  dom_Free :: "handle \<Rightarrow> 'w \<Rightarrow> 'w"
  lookupIP :: "Driver \<Rightarrow> 'w \<Rightarrow> (error + string) \<times> 'w"
  WaitForSSH :: "Driver \<Rightarrow> 'w \<Rightarrow> error option \<times> 'w"
  time_Sleep :: "nat \<Rightarrow> 'w \<Rightarrow> 'w"
  createNetwork :: "Driver \<Rightarrow> 'w \<Rightarrow> error option \<times> 'w"
  os_MkdirAll :: "path \<Rightarrow> FileMode \<Rightarrow> filesystem \<Rightarrow> error option \<times> filesystem"
  MakeDiskImage :: "Driver \<Rightarrow> string \<Rightarrow> int \<Rightarrow> 'w \<Rightarrow> error option \<times> 'w"
  createDomain :: "Driver \<Rightarrow> 'w \<Rightarrow> (error + handle) \<times> 'w"
  getConnection :: "'w \<Rightarrow> (error + handle) \<times> 'w"
  conn_Close :: "handle \<Rightarrow> 'w \<Rightarrow> 'w"
  LookupNetworkByName :: "handle \<Rightarrow> string \<Rightarrow> 'w \<Rightarrow> (handle option \<times> error option) \<times> 'w"
  LookupDomainByName :: "handle \<Rightarrow> string \<Rightarrow> 'w \<Rightarrow> (handle option \<times> error option) \<times> 'w"
  net_Destroy :: "handle \<Rightarrow> 'w \<Rightarrow> error option \<times> 'w"
  net_Undefine :: "handle \<Rightarrow> 'w \<Rightarrow> error option \<times> 'w"

record 'w sys =
  drv :: Driver
  world :: 'w
  files :: filesystem
  trace :: "call list"

text \<open>Issuing a call: the collaborator answers and moves the world, the trace grows.\<close>

definition ask :: "call \<Rightarrow> ('w \<Rightarrow> 'a \<times> 'w) \<Rightarrow> 'w sys \<Rightarrow> 'a \<times> 'w sys" where
  "ask c f s = (case f (world s) of (r, w) \<Rightarrow> (r, s\<lparr>world := w, trace := trace s @ [c]\<rparr>))"

definition tell :: "call \<Rightarrow> ('w \<Rightarrow> 'w) \<Rightarrow> 'w sys \<Rightarrow> 'w sys" where
  "tell c f s = s\<lparr>world := f (world s), trace := trace s @ [c]\<rparr>"

subsection \<open>GetState\<close>

text \<open>The \<open>switch\<close> of GetState, case by case in the order of the source.\<close>

definition GetState_switch :: "DomainState \<Rightarrow> State" where
  "GetState_switch libvirtState =
     (if libvirtState = DOMAIN_RUNNING \<or> libvirtState = DOMAIN_SHUTDOWN then state_Running
      else if libvirtState = DOMAIN_BLOCKED \<or> libvirtState = DOMAIN_CRASHED then state_Error
      else if libvirtState = DOMAIN_PAUSED then state_Paused
      else if libvirtState = DOMAIN_SHUTOFF then state_Stopped
      else if libvirtState = DOMAIN_PMSUSPENDED then state_Saved
      else if libvirtState = DOMAIN_NOSTATE then state_None
      else state_None)"

text \<open>
  GetState returns a state and an error; the deferred \<open>closeDomain\<close> runs on both
  returns that follow a successful \<open>getDomain\<close>.
\<close>

definition GetState :: "'w env \<Rightarrow> 'w sys \<Rightarrow> (State \<times> error option) \<times> 'w sys" where
  "GetState E s =
     (case ask C_getDomain (getDomain E (MachineName (drv s))) s of
        (Inl err, s1) \<Rightarrow> ((state_None, Some (Wrap err ''getting connection'')), s1)
      | (Inr (domn, conn), s1) \<Rightarrow>
          (case ask C_dom_GetState (dom_GetState E domn) s1 of
             (Inl err, s2) \<Rightarrow>
               ((state_None, Some (Wrap err ''getting domain state'')),
                tell C_closeDomain (closeDomain E (Some (domn, conn))) s2)
           | (Inr libvirtState, s2) \<Rightarrow>
               ((GetState_switch libvirtState, None),
                tell C_closeDomain (closeDomain E (Some (domn, conn))) s2)))"


subsection \<open>GetIP\<close>

definition GetIP :: "'w env \<Rightarrow> 'w sys \<Rightarrow> (error + string) \<times> 'w sys" where
  "GetIP E s =
     (case GetState E s of
        ((st, Some err), s1) \<Rightarrow> (Inl (Wrap err ''machine in unknown state''), s1)
      | ((st, None), s1) \<Rightarrow>
          if st \<noteq> state_Running then (Inl (New ''host is not running''), s1)
          else (case ask C_lookupIP (lookupIP E (drv s1)) s1 of
                  (Inl err, s2) \<Rightarrow> (Inl (Wrap err ''getting IP''), s2)
                | (Inr ip, s2) \<Rightarrow> (Inr ip, s2)))"

subsection \<open>Kill\<close>

definition Kill :: "'w env \<Rightarrow> 'w sys \<Rightarrow> error option \<times> 'w sys" where
  "Kill E s =
     (case ask C_getDomain (getDomain E (MachineName (drv s))) s of
        (Inl err, s1) \<Rightarrow> (Some (Wrap err ''getting connection''), s1)
      | (Inr (domn, conn), s1) \<Rightarrow>
          (case ask C_dom_Destroy (dom_Destroy E domn) s1 of
             (r, s2) \<Rightarrow> (r, tell C_closeDomain (closeDomain E (Some (domn, conn))) s2)))"

subsection \<open>Start\<close>

text \<open>
  A loop of the source either makes the enclosing function return, or is left (by
  \<open>break\<close> or because its condition fails) and the function goes on.
\<close>

datatype loop_exit = Return "error option" | Fallthrough

text \<open>The loop \<open>for i := 0; i <= 40; i++\<close> of Start, entered at \<open>i\<close>.\<close>

function Start_wait :: "'w env \<Rightarrow> nat \<Rightarrow> 'w sys \<Rightarrow> loop_exit \<times> 'w sys" where
  "Start_wait E i s =
     (if i \<le> 40 then
        (case GetIP E s of
           (Inl err, s1) \<Rightarrow> (Return (Some (Wrap err ''getting ip during machine start'')), s1)
         | (Inr ip, s1) \<Rightarrow>
             if ip = ''''
             then Start_wait E (i + 1) (tell (C_Sleep 3) (time_Sleep E 3) s1)
             else (Fallthrough, s1\<lparr>drv := (drv s1)\<lparr>IPAddress := ip\<rparr>\<rparr>))
      else (Fallthrough, s))"
  by pat_completeness auto
termination
  by (relation "measure (\<lambda>(E, i, s). 41 - i)") auto

definition Start :: "'w env \<Rightarrow> 'w sys \<Rightarrow> error option \<times> 'w sys" where
  "Start E s =
     (case ask C_getDomain (getDomain E (MachineName (drv s))) s of
        (Inl err, s1) \<Rightarrow> (Some (Wrap err ''getting connection''), s1)
      | (Inr (domn, conn), s1) \<Rightarrow>
          (case ask C_dom_Create (dom_Create E domn) s1 of
             (Some err, s2) \<Rightarrow>
               (Some (Wrap err ''Error creating VM''),
                tell C_closeDomain (closeDomain E (Some (domn, conn))) s2)
           | (None, s2) \<Rightarrow>
               (case Start_wait E 0 s2 of
                  (Return r, s3) \<Rightarrow>
                    (r, tell C_closeDomain (closeDomain E (Some (domn, conn))) s3)
                | (Fallthrough, s3) \<Rightarrow>
                    if IPAddress (drv s3) = ''''
                    then (Some (New ''Machine didn't return an IP after 120 seconds''),
                          tell C_closeDomain (closeDomain E (Some (domn, conn))) s3)
                    else (case ask C_WaitForSSH (WaitForSSH E (drv s3)) s3 of
                            (Some err, s4) \<Rightarrow>
                              (Some (Wrap err ''SSH not available after waiting''),
                               tell C_closeDomain (closeDomain E (Some (domn, conn)))
                                 (s4\<lparr>drv := (drv s4)\<lparr>IPAddress := ''''\<rparr>\<rparr>))
                          | (None, s4) \<Rightarrow>
                              (None, tell C_closeDomain (closeDomain E (Some (domn, conn))) s4)))))"

subsection \<open>Stop\<close>

text \<open>
  The loop \<open>for i := 0; i < 60; i++\<close> of Stop, entered at \<open>i\<close>.  The \<open>s\<close> it declares
  shadows the \<open>s\<close> of Stop, so the state named by the final error is the one read
  before the shutdown request.
\<close>

function Stop_wait :: "'w env \<Rightarrow> nat \<Rightarrow> 'w sys \<Rightarrow> loop_exit \<times> 'w sys" where
  "Stop_wait E i s =
     (if i < 60 then
        (case GetState E s of
           ((st, Some err), s1) \<Rightarrow> (Return (Some (Wrap err ''Error getting state of VM'')), s1)
         | ((st, None), s1) \<Rightarrow>
             if st = state_Stopped then (Return None, s1)
             else Stop_wait E (i + 1) (tell (C_Sleep 1) (time_Sleep E 1) s1))
      else (Fallthrough, s))"
  by pat_completeness auto
termination
  by (relation "measure (\<lambda>(E, i, s). 60 - i)") auto

text \<open>
  In Stop the \<open>defer closeDomain(dom, conn)\<close> comes before the test of \<open>getDomain\<close>'s
  error, so it also runs, on the handles of the failed call, when \<open>getDomain\<close> fails.
\<close>

definition Stop :: "'w env \<Rightarrow> 'w sys \<Rightarrow> error option \<times> 'w sys" where
  "Stop E s0 =
     (let s = s0\<lparr>drv := (drv s0)\<lparr>IPAddress := ''''\<rparr>\<rparr> in
      case GetState E s of
        ((st, Some err), s1) \<Rightarrow> (Some (Wrap err ''getting state of VM''), s1)
      | ((st, None), s1) \<Rightarrow>
          if st \<noteq> state_Stopped then
            (case ask C_getDomain (getDomain E (MachineName (drv s1))) s1 of
               (Inl err, s2) \<Rightarrow>
                 (Some (Wrap err ''getting connection''),
                  tell C_closeDomain (closeDomain E None) s2)
             | (Inr (domn, conn), s2) \<Rightarrow>
                 (case ask C_dom_Shutdown (dom_Shutdown E domn) s2 of
                    (Some err, s3) \<Rightarrow>
                      (Some (Wrap err ''stopping vm''),
                       tell C_closeDomain (closeDomain E (Some (domn, conn))) s3)
                  | (None, s3) \<Rightarrow>
                      (case Stop_wait E 0 s3 of
                         (Return r, s4) \<Rightarrow>
                           (r, tell C_closeDomain (closeDomain E (Some (domn, conn))) s4)
                       | (Fallthrough, s4) \<Rightarrow>
                           (Some (Errorf ''Could not stop VM, current state %s'' st),
                            tell C_closeDomain (closeDomain E (Some (domn, conn))) s4))))
          else (Some (Errorf ''Could not stop VM, current state %s'' st), s1))"

subsection \<open>Remove\<close>

definition Remove :: "'w env \<Rightarrow> 'w sys \<Rightarrow> error option \<times> 'w sys" where
  "Remove E s =
     (case ask C_getConnection (getConnection E) s of
        (Inl err, s1) \<Rightarrow> (Some (Wrap err ''getting connection''), s1)
      | (Inr conn, s1) \<Rightarrow>
          (case ask (C_LookupNetworkByName (PrivateNetwork (drv s1)))
                  (LookupNetworkByName E conn (PrivateNetwork (drv s1))) s1 of
             ((network, err), s2) \<Rightarrow>
               (let s3 = (case network of
                            None \<Rightarrow> s2
                          | Some n \<Rightarrow>
                              snd (ask C_net_Undefine (net_Undefine E n)
                                (snd (ask C_net_Destroy (net_Destroy E n) s2))))
                in case ask (C_LookupDomainByName (MachineName (drv s3)))
                          (LookupDomainByName E conn (MachineName (drv s3))) s3 of
                     ((domn, err), s4) \<Rightarrow>
                       (let s5 = (case domn of
                                    None \<Rightarrow> s4
                                  | Some dm \<Rightarrow>
                                      snd (ask C_dom_Undefine (dom_Undefine E dm)
                                        (snd (ask C_dom_Destroy (dom_Destroy E dm) s4))))
                        in (None, tell C_conn_Close (conn_Close E conn) s5)))))"

subsection \<open>Create\<close>

text \<open>The file-system calls of Create, on the \<open>files\<close> of the system and on its trace.\<close>

definition ask_fs :: "call \<Rightarrow> (filesystem \<Rightarrow> 'a \<times> filesystem) \<Rightarrow> 'w sys \<Rightarrow> 'a \<times> 'w sys" where
  "ask_fs c f s = (case f (files s) of (r, fs') \<Rightarrow> (r, s\<lparr>files := fs', trace := trace s @ [c]\<rparr>))"

text \<open>
  The loop \<open>for dir := d.ResolveStorePath("."); dir != "/"; dir = filepath.Dir(dir)\<close>,
  entered at \<open>dir\<close>.  Octal \<open>0011\<close> is 9.  The result of \<open>os.Chmod\<close> is dropped.
  Nothing in kvm.go makes the path absolute, so the loop need not end: \<open>None\<close> is the
  run that never leaves it.
\<close>

partial_function (option) Create_walk :: "path \<Rightarrow> 'w sys \<Rightarrow> (loop_exit \<times> 'w sys) option" where
  "Create_walk dir s =
     (if dir \<noteq> Abs [] then
        (case ask_fs (C_Stat dir) (\<lambda>f. (os_Stat dir f, f)) s of
           (Inl err, s1) \<Rightarrow> Some (Return (Some err), s1)
         | (Inr m, s1) \<Rightarrow>
             if m AND 9 \<noteq> 1
             then Create_walk (filepath_Dir dir)
                    (snd (ask_fs (C_Chmod dir (m OR 9)) (os_Chmod dir (m OR 9)) s1))
             else Create_walk (filepath_Dir dir) s1)
      else Some (Fallthrough, s))"

text \<open>Octal \<open>0755\<close> is 493.  Create returns when its loop does.\<close>

definition Create :: "'w env \<Rightarrow> 'w sys \<Rightarrow> (error option \<times> 'w sys) option" where
  "Create E s =
     (case ask C_createNetwork (createNetwork E (drv s)) s of
        (Some err, s1) \<Rightarrow> Some (Some (Wrap err ''creating network''), s1)
      | (None, s1) \<Rightarrow>
          (case ask_fs (C_MkdirAll (StoreDir (drv s1))) (os_MkdirAll E (StoreDir (drv s1)) 493) s1 of
             (Some err, s2) \<Rightarrow> Some (Some (Wrap err ''Error making store path directory''), s2)
           | (None, s2) \<Rightarrow>
               (case Create_walk (StoreDir (drv s2)) s2 of
                  None \<Rightarrow> None
                | Some (Return r, s3) \<Rightarrow> Some (r, s3)
                | Some (Fallthrough, s3) \<Rightarrow>
                    (case ask C_MakeDiskImage
                            (MakeDiskImage E (drv s3) (Boot2DockerURL (drv s3)) (DiskSize (drv s3))) s3 of
                       (Some err, s4) \<Rightarrow> Some (Some (Wrap err ''Error creating disk''), s4)
                     | (None, s4) \<Rightarrow>
                         (case ask C_createDomain (createDomain E (drv s4)) s4 of
                            (Inl err, s5) \<Rightarrow> Some (Some (Wrap err ''creating domain''), s5)
                          | (Inr domn, s5) \<Rightarrow>
                              (case Start E s5 of
                                 (r, s6) \<Rightarrow> Some (r, tell C_dom_Free (dom_Free E domn) s6)))))))"

subsection \<open>Observing a run\<close>

text \<open>The calls issued between two states of a run: what the trace has gained.\<close>

definition issued :: "'w sys \<Rightarrow> 'w sys \<Rightarrow> call list" where
  "issued s s' = drop (length (trace s)) (trace s')"

text \<open>
  The directories the loop of Create visits from the absolute path with components
  \<open>cs\<close>, in the order of the visits: the header
  \<open>for dir := ...; dir != "/"; dir = filepath.Dir(dir)\<close> alone.
\<close>

function visited :: "string list \<Rightarrow> path list" where
  "visited cs = (if cs \<noteq> [] then Abs cs # visited (butlast cs) else [])"
  by pat_completeness auto
termination
  by (relation "measure length") auto

text \<open>
  What one pass of the loop body does to the inode it visits: \<open>os.Chmod\<close> to the mode
  or-ed with \<open>0011\<close> when the guard \<open>mode&0011 != 1\<close> holds, which takes effect when
  the process may change the mode.
\<close>

definition visit_inode :: "inode \<Rightarrow> inode" where
  "visit_inode i =
     (if mode i AND 9 \<noteq> 1 \<and> chmod_ok i then i\<lparr>mode := chmod_mode i (mode i OR 9)\<rparr> else i)"

text \<open>
  Whatever the path, a walk that returns has touched nothing but the files, by \<open>stat\<close>
  and \<open>chmod\<close>; no name has appeared or disappeared; if it made Create return, it is
  with the error of a \<open>stat\<close>; and if it ran to the root, the path was absolute.
\<close>

definition walk_post :: "path \<Rightarrow> 'w sys \<Rightarrow> loop_exit \<times> 'w sys \<Rightarrow> bool" where
  "walk_post p s y \<longleftrightarrow>
     drv (snd y) = drv s \<and> world (snd y) = world s \<and>
     (\<forall>q. files (snd y) q = None \<longleftrightarrow> files s q = None) \<and>
     (\<exists>t. trace (snd y) = trace s @ t \<and>
          (\<forall>c \<in> set t. \<exists>q. c = C_Stat q \<or> (\<exists>m. c = C_Chmod q m))) \<and>
     (\<forall>r. fst y = Return r \<longrightarrow> (\<exists>q err. os_Stat q (files s) = Inl err \<and> r = Some err)) \<and>
     (fst y = Fallthrough \<longrightarrow> (\<exists>cs. p = Abs cs))"

subsection \<open>A test double for the collaborators\<close>

text \<open>
  A hypervisor whose domain exists and stays in the native state \<open>st\<close>; that never
  leases an address (\<open>lease = None\<close>) or leases one from lookup number \<open>k\<close> on
  (\<open>lease = Some k\<close>; the world counts the lookups); whose SSH probe answers \<open>ssh\<close> and
  whose disk provisioner answers \<open>disk\<close>.  The private network and the domain are
  unknown to the two lookups of Remove, and the store directory exists.
\<close>

definition mock :: "DomainState \<Rightarrow> nat option \<Rightarrow> error option \<Rightarrow> error option \<Rightarrow> nat env" where
  "mock st lease ssh disk =
     \<lparr>getDomain = (\<lambda>name w. (Inr (1, 2), w)),
      closeDomain = (\<lambda>h w. w),
      dom_GetState = (\<lambda>h w. (Inr st, w)),
      dom_Create = (\<lambda>h w. (None, w)),
      dom_Shutdown = (\<lambda>h w. (None, w)),
      dom_Destroy = (\<lambda>h w. (None, w)),
      dom_Undefine = (\<lambda>h w. (None, w)),
      dom_Free = (\<lambda>h w. w),
      lookupIP = (\<lambda>d w. (Inr (case lease of
                                  None \<Rightarrow> ''''
                                | Some k \<Rightarrow> if w < k then '''' else ''192.168.39.2''), Suc w)),
      WaitForSSH = (\<lambda>d w. (ssh, w)),
      time_Sleep = (\<lambda>n w. w),
      createNetwork = (\<lambda>d w. (None, w)),
      os_MkdirAll = (\<lambda>p m f. (None, f)),
      MakeDiskImage = (\<lambda>d url size w. (disk, w)),
      createDomain = (\<lambda>d w. (Inr 1, w)),
      getConnection = (\<lambda>w. (Inr 2, w)),
      conn_Close = (\<lambda>h w. w),
      LookupNetworkByName = (\<lambda>c name w. ((None, Some (New ''Network not found'')), w)),
      LookupDomainByName = (\<lambda>c name w. ((None, Some (New ''Domain not found'')), w)),
      net_Destroy = (\<lambda>h w. (None, w)),
      net_Undefine = (\<lambda>h w. (None, w))\<rparr>"

text \<open>A machine with recorded address \<open>ip\<close> on the file system \<open>f\<close>, before any call.\<close>

definition machine0 :: "string \<Rightarrow> filesystem \<Rightarrow> nat sys" where
  "machine0 ip f =
     \<lparr>drv = \<lparr>MachineName = ''minikube'', PrivateNetwork = ''minikube-net'',
             StoreDir = Abs [''machines'', ''minikube''], Boot2DockerURL = [],
             DiskSize = 20000, IPAddress = ip\<rparr>,
      world = 0, files = f, trace = []\<rparr>"

text \<open>
  Two file systems.  In \<open>fs_foreign\<close> the store directory \<open>/machines/minikube\<close> has mode
  \<open>drw-r--r--\<close> (octal 0644 is 420) and belongs, like \<open>/machines\<close> (\<open>drwxr-xr-x\<close>, 493),
  to somebody else.  In \<open>fs_own\<close> the process owns \<open>/a\<close> (\<open>drwx------\<close>, 448), \<open>/a/b\<close>
  (\<open>drwxr-s---\<close>, setgid and 488, of a group the process is not in) and \<open>/a/b/c\<close>
  (\<open>drwx-----x\<close>, 449); the working directory \<open>.\<close> (\<open>drwxr-xr-x\<close>) is the process's too.
\<close>

definition fs_foreign :: filesystem where
  "fs_foreign =
     [Abs [''machines''] \<mapsto> \<lparr>mode = ModeDir OR 493, chmod_ok = False, in_group = False\<rparr>,
      Abs [''machines'', ''minikube''] \<mapsto>
        \<lparr>mode = ModeDir OR 420, chmod_ok = False, in_group = False\<rparr>]"

definition fs_own :: filesystem where
  "fs_own =
     [Abs [''a''] \<mapsto> \<lparr>mode = ModeDir OR 448, chmod_ok = True, in_group = True\<rparr>,
      Abs [''a'', ''b''] \<mapsto>
        \<lparr>mode = ModeDir OR ModeSetgid OR 488, chmod_ok = True, in_group = False\<rparr>,
      Abs [''a'', ''b'', ''c''] \<mapsto> \<lparr>mode = ModeDir OR 449, chmod_ok = True, in_group = True\<rparr>,
      Rel [] \<mapsto> \<lparr>mode = ModeDir OR 493, chmod_ok = True, in_group = True\<rparr>]"

section \<open>Properties\<close>

subsection \<open>Calls, frames and traces\<close>

declare Start_wait.simps [simp del]
declare Stop_wait.simps [simp del]
declare visited.simps [simp del]

lemmas DOMAIN_defs =
  DOMAIN_NOSTATE_def DOMAIN_RUNNING_def DOMAIN_BLOCKED_def DOMAIN_PAUSED_def
  DOMAIN_SHUTDOWN_def DOMAIN_SHUTOFF_def DOMAIN_CRASHED_def DOMAIN_PMSUSPENDED_def

lemma ask_simps [simp]:
  "drv (snd (ask c f s)) = drv s"
  "files (snd (ask c f s)) = files s"
  "trace (snd (ask c f s)) = trace s @ [c]"
  "world (snd (ask c f s)) = snd (f (world s))"
  "fst (ask c f s) = fst (f (world s))"
  by (simp_all add: ask_def split: prod.splits)

lemma tell_simps [simp]:
  "drv (tell c f s) = drv s"
  "files (tell c f s) = files s"
  "trace (tell c f s) = trace s @ [c]"
  "world (tell c f s) = f (world s)"
  by (simp_all add: tell_def)

lemma ask_fs_simps [simp]:
  "drv (snd (ask_fs c f s)) = drv s"
  "world (snd (ask_fs c f s)) = world s"
  "trace (snd (ask_fs c f s)) = trace s @ [c]"
  "files (snd (ask_fs c f s)) = snd (f (files s))"
  "fst (ask_fs c f s) = fst (f (files s))"
  by (simp_all add: ask_fs_def split: prod.splits)

lemma ask_eq:
  "ask c f s = (r, s') \<Longrightarrow>
     drv s' = drv s \<and> files s' = files s \<and> trace s' = trace s @ [c] \<and> f (world s) = (r, world s')"
  by (auto simp: ask_def split: prod.splits)

lemma ask_fs_eq:
  "ask_fs c f s = (r, s') \<Longrightarrow>
     drv s' = drv s \<and> world s' = world s \<and> trace s' = trace s @ [c] \<and> f (files s) = (r, files s')"
  by (auto simp: ask_fs_def split: prod.splits)

lemma issued_append [simp]: "trace s' = trace s @ t \<Longrightarrow> issued s s' = t"
  by (simp add: issued_def)

lemma count_list_concat_replicate:
  "count_list (concat (replicate n xs)) c = n * count_list xs c"
  by (induction n) simp_all

text \<open>GetState leaves the driver and the files alone and issues at most three calls.\<close>

lemma GetState_frame:
  "GetState E s = (r, s') \<Longrightarrow> drv s' = drv s \<and> files s' = files s"
  by (auto simp: GetState_def split: prod.splits sum.splits dest!: ask_eq)

lemma GetState_trace:
  "GetState E s = (r, s') \<Longrightarrow>
     trace s' = trace s @ [C_getDomain] \<or>
     trace s' = trace s @ [C_getDomain, C_dom_GetState, C_closeDomain]"
  by (auto simp: GetState_def split: prod.splits sum.splits dest!: ask_eq)

lemma GetState_ok_trace:
  "GetState E s = ((st, None), s') \<Longrightarrow>
     trace s' = trace s @ [C_getDomain, C_dom_GetState, C_closeDomain]"
  by (auto simp: GetState_def split: prod.splits sum.splits dest!: ask_eq)

lemma GetIP_frame:
  "GetIP E s = (r, s') \<Longrightarrow> drv s' = drv s \<and> files s' = files s"
  by (auto simp: GetIP_def split: prod.splits sum.splits option.splits if_splits
      dest!: ask_eq GetState_frame)

lemma GetIP_ok_trace:
  "GetIP E s = (Inr ip, s') \<Longrightarrow>
     trace s' = trace s @ [C_getDomain, C_dom_GetState, C_closeDomain, C_lookupIP]"
  by (auto simp: GetIP_def split: prod.splits sum.splits option.splits if_splits
      dest!: ask_eq GetState_ok_trace)

lemma Kill_frame: "Kill E s = (r, s') \<Longrightarrow> drv s' = drv s \<and> files s' = files s"
  by (auto simp: Kill_def split: prod.splits sum.splits dest!: ask_eq)

lemma Stop_wait_drv: "drv (snd (Stop_wait E i s)) = drv s"
proof (induction E i s rule: Stop_wait.induct)
  case (1 E i s)
  show ?case
  proof (cases "GetState E s")
    case (Pair r s1)
    then have d: "drv s1 = drv s" using GetState_frame by blast
    obtain st e where r: "r = (st, e)" by (cases r)
    show ?thesis
      using 1 Pair r d
      by (subst Stop_wait.simps) (auto split: option.splits)
  qed
qed

lemma Stop_wait_frame: "Stop_wait E i s = (r, s') \<Longrightarrow> drv s' = drv s"
  using Stop_wait_drv [of E i s] by simp

subsection \<open>GetState: the translation of native states\<close>

text \<open>
  Claim C3.  Whenever the domain is found and libvirt reports its native state \<open>n\<close>,
  GetState returns no error and the lifecycle state of the table: running and
  shutdown-in-progress give Running, blocked and crashed give Error, paused gives Paused,
  shutoff gives Stopped, pmsuspended gives Saved, no-state gives None, and so does every
  integer that is none of the eight named states.  The translation is a function of \<open>n\<close>
  alone, defined on every integer.
\<close>

theorem GetState_translation:
  assumes "getDomain E (MachineName (drv s)) (world s) = (Inr (dm, conn), w1)"
      and "dom_GetState E dm w1 = (Inr n, w2)"
  shows "\<exists>st. fst (GetState E s) = (st, None) \<and>
     (n = DOMAIN_RUNNING \<longrightarrow> st = state_Running) \<and>
     (n = DOMAIN_SHUTDOWN \<longrightarrow> st = state_Running) \<and>
     (n = DOMAIN_BLOCKED \<longrightarrow> st = state_Error) \<and>
     (n = DOMAIN_CRASHED \<longrightarrow> st = state_Error) \<and>
     (n = DOMAIN_PAUSED \<longrightarrow> st = state_Paused) \<and>
     (n = DOMAIN_SHUTOFF \<longrightarrow> st = state_Stopped) \<and>
     (n = DOMAIN_PMSUSPENDED \<longrightarrow> st = state_Saved) \<and>
     (n = DOMAIN_NOSTATE \<longrightarrow> st = state_None) \<and>
     (n \<notin> {DOMAIN_NOSTATE, DOMAIN_RUNNING, DOMAIN_BLOCKED, DOMAIN_PAUSED, DOMAIN_SHUTDOWN,
             DOMAIN_SHUTOFF, DOMAIN_CRASHED, DOMAIN_PMSUSPENDED} \<longrightarrow> st = state_None)"
  using assms
  by (simp add: GetState_def ask_def GetState_switch_def DOMAIN_defs)

text \<open>
  The theorem at a domain that is being shut down, and at one whose native state, 42, is
  not a state libvirt names.
\<close>

theorem GetState_translation_witness:
  "fst (GetState (mock DOMAIN_SHUTDOWN None None None) (machine0 [] Map.empty))
     = (state_Running, None) \<and>
   fst (GetState (mock 42 None None None) (machine0 [] Map.empty))
     = (state_None, None)"
  using
    GetState_translation [of "mock DOMAIN_SHUTDOWN None None None"
      "machine0 [] Map.empty" 1 2 0 DOMAIN_SHUTDOWN 0]
    GetState_translation [of "mock 42 None None None" "machine0 [] Map.empty" 1 2 0 42 0]
  by (simp add: mock_def machine0_def DOMAIN_defs)

subsection \<open>GetIP: the address is resolved for a running machine only\<close>

text \<open>
  Claim C5.  When GetState answers a lifecycle state other than Running, GetIP returns
  the error "host is not running".  GetIP issues the address lookup exactly when GetState
  has answered Running without error, never otherwise; and then GetIP is that lookup, its
  error wrapped.
\<close>

theorem GetIP_requires_Running:
  "(\<forall>st s1. GetState E s = ((st, None), s1) \<and> st \<noteq> state_Running \<longrightarrow>
      GetIP E s = (Inl (New ''host is not running''), s1)) \<and>
   (C_lookupIP \<in> set (issued s (snd (GetIP E s))) \<longleftrightarrow>
      fst (GetState E s) = (state_Running, None)) \<and>
   (\<forall>s1. GetState E s = ((state_Running, None), s1) \<longrightarrow>
      GetIP E s = (case ask C_lookupIP (lookupIP E (drv s1)) s1 of
                     (Inl err, s2) \<Rightarrow> (Inl (Wrap err ''getting IP''), s2)
                   | (Inr ip, s2) \<Rightarrow> (Inr ip, s2)))"
proof -
  obtain st e s1 where g: "GetState E s = ((st, e), s1)"
    by (cases "GetState E s") auto
  note t = GetState_trace [OF g]
  have "C_lookupIP \<in> set (issued s (snd (GetIP E s))) \<longleftrightarrow> st = state_Running \<and> e = None"
    using g t
    by (cases e)
      (auto simp: GetIP_def issued_def split: prod.splits sum.splits dest!: ask_eq)
  then show ?thesis
    using g by (auto simp: GetIP_def)
qed

text \<open>The theorem at a paused domain and at a running one that holds a lease.\<close>

theorem GetIP_requires_Running_witness:
  "fst (GetIP (mock DOMAIN_PAUSED (Some 0) None None) (machine0 [] Map.empty))
     = Inl (New ''host is not running'') \<and>
   C_lookupIP \<notin> set (issued (machine0 [] Map.empty)
     (snd (GetIP (mock DOMAIN_PAUSED (Some 0) None None) (machine0 [] Map.empty)))) \<and>
   fst (GetIP (mock DOMAIN_RUNNING (Some 0) None None) (machine0 [] Map.empty))
     = Inr ''192.168.39.2''"
proof -
  let ?P = "mock DOMAIN_PAUSED (Some 0) None None"
  let ?R = "mock DOMAIN_RUNNING (Some 0) None None"
  let ?s = "machine0 [] Map.empty"
  define p1 where "p1 = snd (GetState ?P ?s)"
  define r1 where "r1 = snd (GetState ?R ?s)"
  have p: "GetState ?P ?s = ((state_Paused, None), p1)"
    by (simp add: p1_def GetState_def ask_def tell_def mock_def machine0_def
        GetState_switch_def DOMAIN_defs)
  have r: "GetState ?R ?s = ((state_Running, None), r1)"
    by (simp add: r1_def GetState_def ask_def tell_def mock_def machine0_def
        GetState_switch_def DOMAIN_defs)
  have w: "lookupIP ?R (drv r1) (world r1) = (Inr ''192.168.39.2'', Suc (world r1))"
    by (simp add: mock_def)
  from GetIP_requires_Running [of ?P ?s] GetIP_requires_Running [of ?R ?s] p r w
  show ?thesis
    by (auto simp: ask_def)
qed

subsection \<open>Stop\<close>

text \<open>
  Claim C10.  Whatever the collaborators answer and however Stop returns, the recorded IP
  address is empty afterwards; and Stop clears it before anything else, so that its run
  is the run from the machine with the address already cleared.
\<close>

theorem Stop_clears_IPAddress:
  "IPAddress (drv (snd (Stop E s))) = '''' \<and>
   Stop E s = Stop E (s\<lparr>drv := (drv s)\<lparr>IPAddress := ''''\<rparr>\<rparr>)"
proof
  let ?s = "s\<lparr>drv := (drv s)\<lparr>IPAddress := ''''\<rparr>\<rparr>"
  obtain r s1 where g: "GetState E ?s = (r, s1)"
    by (cases "GetState E ?s")
  then have d: "drv s1 = drv ?s"
    using GetState_frame by blast
  obtain st e where r: "r = (st, e)"
    by (cases r)
  show "IPAddress (drv (snd (Stop E s))) = ''''"
    using g r d
    by (auto simp: Stop_def Let_def
        split: option.splits prod.splits sum.splits loop_exit.splits
        dest!: ask_eq Stop_wait_frame)
  show "Stop E s = Stop E ?s"
    by (simp add: Stop_def)
qed

text \<open>
  Claim C1.  What Stop does on a machine whose state translates to Stopped: it clears the
  recorded address, issues no shutdown request, and returns the error "Could not stop VM,
  current state Stopped" instead of success, because the \<open>if s != state.Stopped\<close> block is
  skipped and the \<open>return\<close> after it is the error.
\<close>

theorem Stop_when_Stopped:
  assumes "GetState E (s\<lparr>drv := (drv s)\<lparr>IPAddress := ''''\<rparr>\<rparr>) = ((state_Stopped, None), s1)"
  shows "Stop E s = (Some (Errorf ''Could not stop VM, current state %s'' state_Stopped), s1) \<and>
         IPAddress (drv s1) = '''' \<and> C_dom_Shutdown \<notin> set (issued s s1)"
  using assms GetState_ok_trace [OF assms] GetState_frame [OF assms]
  by (simp add: Stop_def issued_def)

text \<open>The theorem at a domain that is shut off, with an address recorded from its last run.\<close>

theorem Stop_when_Stopped_witness:
  "fst (Stop (mock DOMAIN_SHUTOFF None None None) (machine0 ''192.168.39.5'' Map.empty)) =
     Some (Errorf ''Could not stop VM, current state %s'' state_Stopped)"
proof -
  let ?E = "mock DOMAIN_SHUTOFF None None None"
  let ?s = "machine0 ''192.168.39.5'' Map.empty"
  define s1 where "s1 = snd (GetState ?E (?s\<lparr>drv := (drv ?s)\<lparr>IPAddress := ''''\<rparr>\<rparr>))"
  have "GetState ?E (?s\<lparr>drv := (drv ?s)\<lparr>IPAddress := ''''\<rparr>\<rparr>) = ((state_Stopped, None), s1)"
    by (simp add: s1_def GetState_def ask_def tell_def mock_def machine0_def
        GetState_switch_def DOMAIN_defs)
  from Stop_when_Stopped [OF this] show ?thesis
    by simp
qed

text \<open>
  The other way for Stop to end in this error: the shutdown is requested, and the state
  query keeps answering a state that is not Stopped.  The loop then polls 60 times, a
  second apart, and Stop names the state it read before the request.
\<close>

lemma Stop_wait_never:
  assumes "\<And>s'. fst (GetState E s') = (st, None)" and "st \<noteq> state_Stopped" and "i \<le> 60"
  shows "fst (Stop_wait E i s) = Fallthrough \<and>
         trace (snd (Stop_wait E i s)) = trace s @
           concat (replicate (60 - i) [C_getDomain, C_dom_GetState, C_closeDomain, C_Sleep 1])"
  using assms
proof (induction E i s rule: Stop_wait.induct)
  case (1 E i s)
  obtain s1 where g: "GetState E s = ((st, None), s1)"
    using "1.prems"(1) [of s] by (cases "GetState E s") auto
  note tr = GetState_ok_trace [OF g]
  show ?case
  proof (cases "i < 60")
    case True
    let ?s2 = "tell (C_Sleep 1) (time_Sleep E 1) s1"
    have step: "Stop_wait E i s = Stop_wait E (i + 1) ?s2"
      using True g "1.prems"(2) by (simp add: Stop_wait.simps [of E i s])
    have n: "60 - i = Suc (60 - (i + 1))"
      using True by simp
    have ih: "fst (Stop_wait E (i + 1) ?s2) = Fallthrough \<and>
         trace (snd (Stop_wait E (i + 1) ?s2)) = trace ?s2 @
           concat (replicate (60 - (i + 1))
             [C_getDomain, C_dom_GetState, C_closeDomain, C_Sleep 1])"
      using "1.IH" [OF True g [symmetric] refl refl "1.prems"(2)] "1.prems"(1,2) True
      by simp
    show ?thesis
      unfolding step n using ih tr by simp
  next
    case False
    with "1.prems"(3) have "i = 60"
      by simp
    then show ?thesis
      by (simp add: Stop_wait.simps [of E 60 s])
  qed
qed

lemma Stop_budget_exhausted:
  assumes "\<And>s'. fst (GetState E s') = (st, None)" and "st \<noteq> state_Stopped"
      and "\<And>name w. \<exists>h w'. getDomain E name w = (Inr h, w')"
      and "\<And>h w. fst (dom_Shutdown E h w) = None"
  shows "fst (Stop E s) = Some (Errorf ''Could not stop VM, current state %s'' st) \<and>
         count_list (issued s (snd (Stop E s))) C_dom_Shutdown = 1 \<and>
         count_list (issued s (snd (Stop E s))) (C_Sleep 1) = 60"
proof -
  let ?s = "s\<lparr>drv := (drv s)\<lparr>IPAddress := ''''\<rparr>\<rparr>"
  obtain s1 where g: "GetState E ?s = ((st, None), s1)"
    using assms(1) [of ?s] by (cases "GetState E ?s") auto
  have t1: "trace s1 = trace s @ [C_getDomain, C_dom_GetState, C_closeDomain]"
    using GetState_ok_trace [OF g] by simp
  obtain dm conn w2 where gd: "getDomain E (MachineName (drv s1)) (world s1) = (Inr (dm, conn), w2)"
    using assms(3) [of "MachineName (drv s1)" "world s1"] by (metis surj_pair)
  define s2 where "s2 = snd (ask C_getDomain (getDomain E (MachineName (drv s1))) s1)"
  have a2: "ask C_getDomain (getDomain E (MachineName (drv s1))) s1 = (Inr (dm, conn), s2)"
    using gd by (simp add: s2_def ask_def)
  define s3 where "s3 = snd (ask C_dom_Shutdown (dom_Shutdown E dm) s2)"
  have a3: "ask C_dom_Shutdown (dom_Shutdown E dm) s2 = (None, s3)"
    using assms(4) [of dm "world s2"] by (simp add: s3_def prod_eq_iff)
  have t3: "trace s3 = trace s1 @ [C_getDomain, C_dom_Shutdown]"
    using ask_eq [OF a2] ask_eq [OF a3] by simp
  obtain r s4 where w: "Stop_wait E 0 s3 = (r, s4)"
    by (cases "Stop_wait E 0 s3")
  from Stop_wait_never [OF assms(1,2), of 0 s3] w
  have r: "r = Fallthrough"
    and t4: "trace s4 = trace s3 @
      concat (replicate 60 [C_getDomain, C_dom_GetState, C_closeDomain, C_Sleep 1])"
    by simp_all
  have res: "Stop E s = (Some (Errorf ''Could not stop VM, current state %s'' st),
      tell C_closeDomain (closeDomain E (Some (dm, conn))) s4)"
    using g a2 a3 w r assms(2) by (simp add: Stop_def)
  have "trace (snd (Stop E s)) = trace s @
      ([C_getDomain, C_dom_GetState, C_closeDomain, C_getDomain, C_dom_Shutdown] @
       concat (replicate 60 [C_getDomain, C_dom_GetState, C_closeDomain, C_Sleep 1]) @
       [C_closeDomain])"
    using res t4 t3 t1 by simp
  then have "issued s (snd (Stop E s)) =
      [C_getDomain, C_dom_GetState, C_closeDomain, C_getDomain, C_dom_Shutdown] @
       concat (replicate 60 [C_getDomain, C_dom_GetState, C_closeDomain, C_Sleep 1]) @
       [C_closeDomain]"
    by (rule issued_append)
  then show ?thesis
    using res by (simp add: count_list_concat_replicate)
qed

subsection \<open>Start: the wait for an address\<close>

text \<open>
  If the address query answers the empty address at every state, the loop entered at
  \<open>i\<close> runs through all its remaining rounds, \<open>41 - i\<close> of them, each one a state query,
  an address lookup and a sleep of three seconds, and is left with the driver unchanged.
\<close>

lemma Start_wait_never:
  assumes "\<And>s'. fst (GetIP E s') = Inr ''''" and "i \<le> 41"
  shows "fst (Start_wait E i s) = Fallthrough \<and>
         drv (snd (Start_wait E i s)) = drv s \<and>
         trace (snd (Start_wait E i s)) = trace s @
           concat (replicate (41 - i)
             [C_getDomain, C_dom_GetState, C_closeDomain, C_lookupIP, C_Sleep 3])"
  using assms
proof (induction E i s rule: Start_wait.induct)
  case (1 E i s)
  obtain s1 where g: "GetIP E s = (Inr '''', s1)"
    using "1.prems"(1) [of s] by (cases "GetIP E s") auto
  note tr = GetIP_ok_trace [OF g] and fr = GetIP_frame [OF g]
  show ?case
  proof (cases "i \<le> 40")
    case True
    let ?s2 = "tell (C_Sleep 3) (time_Sleep E 3) s1"
    have step: "Start_wait E i s = Start_wait E (i + 1) ?s2"
      using True g by (simp add: Start_wait.simps [of E i s])
    have n: "41 - i = Suc (41 - (i + 1))"
      using True by simp
    have ih: "fst (Start_wait E (i + 1) ?s2) = Fallthrough \<and>
         drv (snd (Start_wait E (i + 1) ?s2)) = drv ?s2 \<and>
         trace (snd (Start_wait E (i + 1) ?s2)) = trace ?s2 @
           concat (replicate (41 - (i + 1))
             [C_getDomain, C_dom_GetState, C_closeDomain, C_lookupIP, C_Sleep 3])"
      using "1.IH" [OF True g [symmetric] refl refl] "1.prems"(1) True by simp
    show ?thesis
      unfolding step n using ih tr fr by simp
  next
    case False
    with "1.prems"(2) have "i = 41" by simp
    then show ?thesis
      by (simp add: Start_wait.simps [of E 41 s])
  qed
qed

text \<open>
  Claim C2.  What Start does when the address query answers the empty address, with no
  error, at every attempt: it gives up with the error that names 120 seconds, after 41
  address lookups and 41 sleeps of three seconds, since its loop runs for
  \<open>i = 0, ..., 40\<close>.
\<close>

theorem Start_never_an_IP:
  assumes "ask C_getDomain (getDomain E (MachineName (drv s))) s = (Inr (dm, conn), s1)"
      and "ask C_dom_Create (dom_Create E dm) s1 = (None, s2)"
      and "IPAddress (drv s) = ''''"
      and "\<And>s'. fst (GetIP E s') = Inr ''''"
  shows "fst (Start E s) = Some (New ''Machine didn't return an IP after 120 seconds'') \<and>
         count_list (issued s (snd (Start E s))) C_lookupIP = 41 \<and>
         count_list (issued s (snd (Start E s))) (C_Sleep 3) = 41"
proof -
  obtain r s3 where w: "Start_wait E 0 s2 = (r, s3)"
    by (cases "Start_wait E 0 s2")
  from Start_wait_never [OF assms(4), of 0 s2] w
  have r: "r = Fallthrough" and d: "drv s3 = drv s2"
    and t: "trace s3 = trace s2 @ concat (replicate 41
             [C_getDomain, C_dom_GetState, C_closeDomain, C_lookupIP, C_Sleep 3])"
    by simp_all
  from ask_eq [OF assms(1)] ask_eq [OF assms(2)]
  have d2: "drv s2 = drv s" and t2: "trace s2 = trace s @ [C_getDomain, C_dom_Create]"
    by simp_all
  have res: "Start E s = (Some (New ''Machine didn't return an IP after 120 seconds''),
      tell C_closeDomain (closeDomain E (Some (dm, conn))) s3)"
    using assms(1,2,3) w r d d2 by (simp add: Start_def)
  have "trace (snd (Start E s)) = trace s @ ([C_getDomain, C_dom_Create] @
      concat (replicate 41 [C_getDomain, C_dom_GetState, C_closeDomain, C_lookupIP, C_Sleep 3])
      @ [C_closeDomain])"
    using res t t2 by simp
  then have "issued s (snd (Start E s)) = [C_getDomain, C_dom_Create] @
      concat (replicate 41 [C_getDomain, C_dom_GetState, C_closeDomain, C_lookupIP, C_Sleep 3])
      @ [C_closeDomain]"
    by (rule issued_append)
  then show ?thesis
    using res by (simp add: count_list_concat_replicate)
qed

text \<open>The theorem at a running domain that never gets a lease.\<close>

theorem Start_never_an_IP_witness:
  "fst (Start (mock DOMAIN_RUNNING None None None) (machine0 '''' Map.empty))
     = Some (New ''Machine didn't return an IP after 120 seconds'') \<and>
   count_list (issued (machine0 '''' Map.empty)
       (snd (Start (mock DOMAIN_RUNNING None None None) (machine0 '''' Map.empty))))
     C_lookupIP = 41"
proof -
  let ?E = "mock DOMAIN_RUNNING None None None"
  let ?s = "machine0 '''' Map.empty"
  define s1 where "s1 = snd (ask C_getDomain (getDomain ?E (MachineName (drv ?s))) ?s)"
  define s2 where "s2 = snd (ask C_dom_Create (dom_Create ?E 1) s1)"
  have h1: "ask C_getDomain (getDomain ?E (MachineName (drv ?s))) ?s = (Inr (1, 2), s1)"
    by (simp add: s1_def ask_def mock_def)
  have h2: "ask C_dom_Create (dom_Create ?E 1) s1 = (None, s2)"
    by (simp add: s2_def ask_def mock_def)
  have h3: "IPAddress (drv ?s) = ''''"
    by (simp add: machine0_def)
  have h4: "\<And>s'. fst (GetIP ?E s') = Inr ''''"
    by (simp add: GetIP_def GetState_def ask_def tell_def mock_def GetState_switch_def DOMAIN_defs)
  from Start_never_an_IP [OF h1 h2 h3 h4] show ?thesis
    by simp
qed

text \<open>
  The rest of what is said of the wait loop holds: an attempt that finds an address
  records it and ends the polling.
\<close>

lemma Start_wait_found:
  assumes "i \<le> 40" and "GetIP E s = (Inr ip, s1)" and "ip \<noteq> ''''"
  shows "Start_wait E i s = (Fallthrough, s1\<lparr>drv := (drv s1)\<lparr>IPAddress := ip\<rparr>\<rparr>)"
  using assms by (simp add: Start_wait.simps [of E i s])

text \<open>
  The test after the loop is on the recorded address, not on what the loop found: with
  an address left over from an earlier run (Kill does not clear it), a machine that
  never gets a lease is not noticed, and Start goes on to the SSH probe.
\<close>

lemma Start_stale_address:
  assumes "ask C_getDomain (getDomain E (MachineName (drv s))) s = (Inr (dm, conn), s1)"
      and "ask C_dom_Create (dom_Create E dm) s1 = (None, s2)"
      and "IPAddress (drv s) \<noteq> ''''"
      and "\<And>s'. fst (GetIP E s') = Inr ''''"
      and "\<And>d w. fst (WaitForSSH E d w) = None"
  shows "fst (Start E s) = None \<and> IPAddress (drv (snd (Start E s))) = IPAddress (drv s)"
proof -
  obtain r s3 where w: "Start_wait E 0 s2 = (r, s3)"
    by (cases "Start_wait E 0 s2")
  from Start_wait_never [OF assms(4), of 0 s2] w
  have r: "r = Fallthrough" and d: "drv s3 = drv s2"
    by simp_all
  from ask_eq [OF assms(1)] ask_eq [OF assms(2)]
  have d2: "drv s2 = drv s"
    by simp
  obtain e s4 where p: "ask C_WaitForSSH (WaitForSSH E (drv s3)) s3 = (e, s4)"
    by (cases "ask C_WaitForSSH (WaitForSSH E (drv s3)) s3")
  from ask_eq [OF p] assms(5) [of "drv s3" "world s3"]
  have e: "e = None" and d4: "drv s4 = drv s3"
    by simp_all
  show ?thesis
    using assms(1,2,3) w r d d2 p e d4 by (simp add: Start_def)
qed

text \<open>
  Claim C4, as stated, fails: a domain that is not yet running when the first attempt is
  made (here, still paused) is not a signal to retry.  GetIP answers "host is not
  running", and Start returns that error after this one attempt, without sleeping.
\<close>

theorem Start_not_running_counterexample:
  "fst (Start (mock DOMAIN_PAUSED (Some 0) None None) (machine0 '''' Map.empty))
     = Some (Wrap (New ''host is not running'') ''getting ip during machine start'') \<and>
   trace (snd (Start (mock DOMAIN_PAUSED (Some 0) None None)
       (machine0 '''' Map.empty)))
     = [C_getDomain, C_dom_Create, C_getDomain, C_dom_GetState, C_closeDomain, C_closeDomain]"
  by (simp add: Start_def Start_wait.simps [of _ 0] GetIP_def GetState_def ask_def tell_def
      mock_def machine0_def GetState_switch_def DOMAIN_defs)

text \<open>
  Claim C4, amended.  At every attempt of the wait loop: an empty address without error
  is the signal to retry (sleep three seconds, next attempt); an error of the address
  query makes Start return that error, wrapped; and a machine whose state is not Running
  is such an error, "host is not running".  What the loop returns, Start returns.
\<close>

theorem Start_wait_attempt:
  assumes "i \<le> 40"
  shows "(\<forall>s1. GetIP E s = (Inr '''', s1) \<longrightarrow>
            Start_wait E i s = Start_wait E (i + 1) (tell (C_Sleep 3) (time_Sleep E 3) s1)) \<and>
         (\<forall>err s1. GetIP E s = (Inl err, s1) \<longrightarrow>
            Start_wait E i s = (Return (Some (Wrap err ''getting ip during machine start'')), s1)) \<and>
         (\<forall>st s1. GetState E s = ((st, None), s1) \<and> st \<noteq> state_Running \<longrightarrow>
            Start_wait E i s =
              (Return (Some (Wrap (New ''host is not running'') ''getting ip during machine start'')), s1)) \<and>
         (\<forall>dm conn s1 s2 r s3.
            ask C_getDomain (getDomain E (MachineName (drv s0))) s0 = (Inr (dm, conn), s1) \<and>
            ask C_dom_Create (dom_Create E dm) s1 = (None, s2) \<and>
            Start_wait E 0 s2 = (Return r, s3) \<longrightarrow> fst (Start E s0) = r)"
  using assms
  by (auto simp: Start_wait.simps [of E i s] GetIP_def Start_def)

text \<open>
  The theorem at a domain that runs and gets its lease at the third lookup (a retry), and
  at a paused one (an abort).
\<close>

theorem Start_wait_attempt_witness:
  "Start_wait (mock DOMAIN_RUNNING (Some 2) None None) 0
       (machine0 '''' Map.empty)
     = Start_wait (mock DOMAIN_RUNNING (Some 2) None None) 1
       ((machine0 '''' Map.empty)
          \<lparr>world := 1,
           trace := [C_getDomain, C_dom_GetState, C_closeDomain, C_lookupIP, C_Sleep 3]\<rparr>) \<and>
   fst (Start_wait (mock DOMAIN_PAUSED (Some 0) None None) 0 (machine0 '''' Map.empty))
     = Return (Some (Wrap (New ''host is not running'') ''getting ip during machine start''))"
proof -
  let ?R = "mock DOMAIN_RUNNING (Some 2) None None"
  let ?P = "mock DOMAIN_PAUSED (Some 0) None None"
  let ?s = "machine0 '''' Map.empty"
  define r1 where "r1 = snd (GetIP ?R ?s)"
  define p1 where "p1 = snd (GetState ?P ?s)"
  have le: "(0::nat) \<le> 40"
    by simp
  have r: "GetIP ?R ?s = (Inr '''', r1)"
    by (simp add: r1_def GetIP_def GetState_def ask_def tell_def mock_def machine0_def
        GetState_switch_def DOMAIN_defs)
  have r1: "tell (C_Sleep 3) (time_Sleep ?R 3) r1 =
      ?s\<lparr>world := 1, trace := [C_getDomain, C_dom_GetState, C_closeDomain, C_lookupIP, C_Sleep 3]\<rparr>"
    by (simp add: r1_def GetIP_def GetState_def ask_def tell_def mock_def machine0_def
        GetState_switch_def DOMAIN_defs)
  have p: "GetState ?P ?s = ((state_Paused, None), p1)"
    by (simp add: p1_def GetState_def ask_def tell_def mock_def machine0_def
        GetState_switch_def DOMAIN_defs)
  from Start_wait_attempt [OF le, of ?R ?s] r r1
    Start_wait_attempt [OF le, of ?P ?s] p
  show ?thesis
    by auto
qed

subsection \<open>Start: the SSH probe\<close>

text \<open>
  Claim C9.  When the wait loop is left with an address recorded and the SSH probe then
  fails, Start returns the probe's error, wrapped, and the recorded address is empty.
\<close>

theorem Start_SSH_failure:
  assumes "ask C_getDomain (getDomain E (MachineName (drv s))) s = (Inr (dm, conn), s1)"
      and "ask C_dom_Create (dom_Create E dm) s1 = (None, s2)"
      and "Start_wait E 0 s2 = (Fallthrough, s3)"
      and "IPAddress (drv s3) \<noteq> ''''"
      and "ask C_WaitForSSH (WaitForSSH E (drv s3)) s3 = (Some err, s4)"
  shows "fst (Start E s) = Some (Wrap err ''SSH not available after waiting'') \<and>
         IPAddress (drv (snd (Start E s))) = ''''"
  using assms by (simp add: Start_def)

text \<open>The theorem at a running domain that has its lease at once and never answers SSH.\<close>

theorem Start_SSH_failure_witness:
  "fst (Start (mock DOMAIN_RUNNING (Some 0) (Some (New ''Too many retries'')) None)
       (machine0 '''' Map.empty))
     = Some (Wrap (New ''Too many retries'') ''SSH not available after waiting'') \<and>
   IPAddress (drv (snd (Start
       (mock DOMAIN_RUNNING (Some 0) (Some (New ''Too many retries'')) None)
       (machine0 '''' Map.empty)))) = ''''"
proof -
  let ?E = "mock DOMAIN_RUNNING (Some 0) (Some (New ''Too many retries'')) None"
  let ?s = "machine0 '''' Map.empty"
  define s1 where "s1 = snd (ask C_getDomain (getDomain ?E (MachineName (drv ?s))) ?s)"
  define s2 where "s2 = snd (ask C_dom_Create (dom_Create ?E 1) s1)"
  define s3 where "s3 = snd (Start_wait ?E 0 s2)"
  define s4 where "s4 = snd (ask C_WaitForSSH (WaitForSSH ?E (drv s3)) s3)"
  have h1: "ask C_getDomain (getDomain ?E (MachineName (drv ?s))) ?s = (Inr (1, 2), s1)"
    by (simp add: s1_def ask_def mock_def)
  have h2: "ask C_dom_Create (dom_Create ?E 1) s1 = (None, s2)"
    by (simp add: s2_def ask_def mock_def)
  have h3: "Start_wait ?E 0 s2 = (Fallthrough, s3)"
    by (simp add: s3_def Start_wait.simps [of _ 0] GetIP_def GetState_def ask_def tell_def
        mock_def GetState_switch_def DOMAIN_defs)
  have h4: "IPAddress (drv s3) \<noteq> ''''"
    by (simp add: s3_def Start_wait.simps [of _ 0] GetIP_def GetState_def ask_def tell_def
        mock_def GetState_switch_def DOMAIN_defs)
  have h5: "ask C_WaitForSSH (WaitForSSH ?E (drv s3)) s3 = (Some (New ''Too many retries''), s4)"
    by (simp add: s4_def ask_def mock_def)
  from Start_SSH_failure [OF h1 h2 h3 h4 h5] show ?thesis .
qed

subsection \<open>Remove\<close>

text \<open>
  Claim C6.  Once the connection to the hypervisor is open, Remove returns success,
  whatever the two lookups answer.  When neither the private network nor the domain is
  known, it does nothing but look them up and close the connection.  A second Remove
  right after the first, with the connection open again, returns success too.
\<close>

theorem Remove_succeeds:
  assumes "getConnection E (world s) = (Inr conn, w1)"
  shows "fst (Remove E s) = None \<and>
         (\<forall>e1 w2 e2 w3.
            LookupNetworkByName E conn (PrivateNetwork (drv s)) w1 = ((None, e1), w2) \<and>
            LookupDomainByName E conn (MachineName (drv s)) w2 = ((None, e2), w3) \<longrightarrow>
            issued s (snd (Remove E s)) =
              [C_getConnection, C_LookupNetworkByName (PrivateNetwork (drv s)),
               C_LookupDomainByName (MachineName (drv s)), C_conn_Close]) \<and>
         (\<forall>conn' w'. getConnection E (world (snd (Remove E s))) = (Inr conn', w') \<longrightarrow>
            fst (Remove E (snd (Remove E s))) = None)"
proof -
  have ok: "fst (Remove E' s') = None"
    if "getConnection E' (world s') = (Inr c, w)" for E' :: "'a env" and s' c w
    using that
    by (simp add: Remove_def ask_def Let_def split: prod.splits option.splits)
  have absent: "issued s (snd (Remove E s)) =
      [C_getConnection, C_LookupNetworkByName (PrivateNetwork (drv s)),
       C_LookupDomainByName (MachineName (drv s)), C_conn_Close]"
    if "LookupNetworkByName E conn (PrivateNetwork (drv s)) w1 = ((None, e1), w2)"
      and "LookupDomainByName E conn (MachineName (drv s)) w2 = ((None, e2), w3)"
    for e1 w2 e2 w3
    using that assms
    by (simp add: Remove_def ask_def tell_def Let_def issued_def)
  show ?thesis
    using ok [OF assms] ok absent by blast
qed

text \<open>
  The theorem at a hypervisor that knows neither the network nor the domain, for two
  calls in succession.
\<close>

theorem Remove_succeeds_witness:
  "fst (Remove (mock DOMAIN_NOSTATE None None None) (machine0 '''' Map.empty)) = None \<and>
   issued (machine0 '''' Map.empty)
       (snd (Remove (mock DOMAIN_NOSTATE None None None) (machine0 '''' Map.empty)))
     = [C_getConnection, C_LookupNetworkByName ''minikube-net'',
        C_LookupDomainByName ''minikube'', C_conn_Close] \<and>
   fst (Remove (mock DOMAIN_NOSTATE None None None)
       (snd (Remove (mock DOMAIN_NOSTATE None None None) (machine0 '''' Map.empty))))
     = None"
proof -
  let ?E = "mock DOMAIN_NOSTATE None None None"
  let ?s = "machine0 '''' Map.empty"
  have c: "getConnection ?E (world ?s) = (Inr 2, 0)"
    by (simp add: mock_def machine0_def)
  have n: "LookupNetworkByName ?E 2 (PrivateNetwork (drv ?s)) 0
      = ((None, Some (New ''Network not found'')), 0)"
    by (simp add: mock_def)
  have d: "LookupDomainByName ?E 2 (MachineName (drv ?s)) 0
      = ((None, Some (New ''Domain not found'')), 0)"
    by (simp add: mock_def)
  have c': "getConnection ?E (world (snd (Remove ?E ?s))) = (Inr 2, world (snd (Remove ?E ?s)))"
    by (simp add: mock_def)
  have names: "PrivateNetwork (drv ?s) = ''minikube-net''" "MachineName (drv ?s) = ''minikube''"
    by (simp_all add: machine0_def)
  from Remove_succeeds [OF c] n d c' names show ?thesis
    by auto
qed

subsection \<open>Create: the walk over the store path\<close>
















text \<open>The loop at the root, on a directory that is missing, and on one that exists.\<close>

lemma Create_walk_root: "Create_walk (Abs []) s = Some (Fallthrough, s)"
  by (simp add: Create_walk.simps [of "Abs []"])

lemma Create_walk_missing:
  assumes "p \<noteq> Abs []" and "files s p = None"
  shows "Create_walk p s =
     Some (Return (Some (New ''stat: no such file or directory'')), s\<lparr>trace := trace s @ [C_Stat p]\<rparr>)"
  using assms
  by (simp add: Create_walk.simps [of p s] ask_fs_def os_Stat_def)

lemma Create_walk_step:
  assumes "p \<noteq> Abs []" and "files s p = Some i"
  shows "\<exists>s1. Create_walk p s = Create_walk (filepath_Dir p) s1 \<and>
           files s1 = (files s)(p \<mapsto> visit_inode i) \<and> drv s1 = drv s \<and> world s1 = world s \<and>
           (trace s1 = trace s @ [C_Stat p] \<or>
            trace s1 = trace s @ [C_Stat p, C_Chmod p (mode i OR 9)])"
proof (cases "mode i AND 9 \<noteq> 1")
  case True
  let ?s1 = "snd (ask_fs (C_Chmod p (mode i OR 9)) (os_Chmod p (mode i OR 9))
      (s\<lparr>trace := trace s @ [C_Stat p]\<rparr>))"
  have "Create_walk p s = Create_walk (filepath_Dir p) ?s1"
    using assms True
    by (simp add: Create_walk.simps [of p s] ask_fs_def os_Stat_def)
  moreover have "files ?s1 = (files s)(p \<mapsto> visit_inode i)"
    using assms True
    by (auto simp: os_Chmod_def visit_inode_def fun_upd_idem)
  ultimately show ?thesis
    by (intro exI [of _ ?s1]) simp
next
  case False
  let ?s1 = "s\<lparr>trace := trace s @ [C_Stat p]\<rparr>"
  have "Create_walk p s = Create_walk (filepath_Dir p) ?s1"
    using assms False
    by (simp add: Create_walk.simps [of p s] ask_fs_def os_Stat_def)
  moreover have "files ?s1 = (files s)(p \<mapsto> visit_inode i)"
    using assms False
    by (simp add: visit_inode_def fun_upd_idem)
  ultimately show ?thesis
    by (intro exI [of _ ?s1]) simp
qed

lemma visited_root: "visited [] = []"
  by (simp add: visited.simps [of "[]"])

lemma visited_below: "cs \<noteq> [] \<Longrightarrow> visited cs = Abs cs # visited (butlast cs)"
  by (simp add: visited.simps [of cs])

text \<open>The visited directories are absolute, below the root and no longer than the start.\<close>

lemma visited_length:
  "q \<in> set (visited cs) \<Longrightarrow> \<exists>qs. q = Abs qs \<and> qs \<noteq> [] \<and> length qs \<le> length cs"
proof (induction cs arbitrary: q rule: visited.induct)
  case (1 cs)
  show ?case
  proof (cases "cs = []")
    case True
    with "1.prems" show ?thesis
      by (simp add: visited_root)
  next
    case False
    with "1.prems" have "q = Abs cs \<or> q \<in> set (visited (butlast cs))"
      by (simp add: visited_below)
    then show ?thesis
      using False "1.IH" [OF False, of q] by auto
  qed
qed

lemma not_visited_above: "cs \<noteq> [] \<Longrightarrow> Abs cs \<notin> set (visited (butlast cs))"
  using visited_length [of "Abs cs" "butlast cs"]
  by (cases cs rule: rev_cases) auto

text \<open>One more pass in front of a walk keeps what a walk guarantees.\<close>

lemma walk_post_step:
  assumes "walk_post (filepath_Dir p) s1 y"
      and "drv s1 = drv s" and "world s1 = world s"
      and "files s1 = files s \<or> (\<exists>i i'. files s p = Some i \<and> files s1 = (files s)(p \<mapsto> i'))"
      and "trace s1 = trace s @ [C_Stat p] \<or> trace s1 = trace s @ [C_Stat p, C_Chmod p m]"
  shows "walk_post p s y"
proof -
  have dom: "files s1 q = None \<longleftrightarrow> files s q = None" for q
    using assms(4) by (cases "q = p") auto
  have st: "\<exists>err. os_Stat q (files s) = Inl err \<and> r = Some err"
    if "os_Stat q (files s1) = Inl err" and "r = Some err" for q err r
    using that dom [of q] by (auto simp: os_Stat_def split: option.splits)
  have ab: "\<exists>cs. p = Abs cs" if "filepath_Dir p = Abs cs" for cs
    using that by (cases p) auto
  from assms(1) obtain t where
    t: "trace (snd y) = trace s1 @ t"
      "\<forall>c \<in> set t. \<exists>q. c = C_Stat q \<or> (\<exists>m. c = C_Chmod q m)"
    by (auto simp: walk_post_def)
  have "\<exists>t. trace (snd y) = trace s @ t \<and>
      (\<forall>c \<in> set t. \<exists>q. c = C_Stat q \<or> (\<exists>m. c = C_Chmod q m))"
    using assms(5)
  proof
    assume "trace s1 = trace s @ [C_Stat p]"
    with t show ?thesis
      by (intro exI [of _ "C_Stat p # t"]) auto
  next
    assume "trace s1 = trace s @ [C_Stat p, C_Chmod p m]"
    with t show ?thesis
      by (intro exI [of _ "C_Stat p # C_Chmod p m # t"]) auto
  qed
  moreover have "drv (snd y) = drv s" "world (snd y) = world s"
    using assms(1,2,3) by (simp_all add: walk_post_def)
  moreover have "files (snd y) q = None \<longleftrightarrow> files s q = None" for q
    using assms(1) dom [of q] by (simp add: walk_post_def)
  moreover have "\<exists>q err. os_Stat q (files s) = Inl err \<and> r = Some err" if "fst y = Return r" for r
  proof -
    from assms(1) that obtain q err where "os_Stat q (files s1) = Inl err" "r = Some err"
      unfolding walk_post_def by blast
    from st [OF this] show ?thesis
      by blast
  qed
  moreover have "\<exists>cs. p = Abs cs" if "fst y = Fallthrough"
  proof -
    from assms(1) that obtain cs where "filepath_Dir p = Abs cs"
      unfolding walk_post_def by blast
    from ab [OF this] show ?thesis .
  qed
  ultimately show ?thesis
    unfolding walk_post_def by simp
qed

lemma Create_walk_post:
  assumes "Create_walk p0 s0 = Some y0"
  shows "walk_post p0 s0 y0"
  apply (rule Create_walk.raw_induct [OF _ assms])
  subgoal premises prems for walk p s y
  proof (cases "p = Abs []")
    case True
    with prems(2) show ?thesis
      by (auto simp: walk_post_def)
  next
    case ne: False
    show ?thesis
    proof (cases "files s p")
      case None
      with ne prems(2) have y: "y = (Return (Some (New ''stat: no such file or directory'')),
          s\<lparr>trace := trace s @ [C_Stat p]\<rparr>)"
        by (simp add: ask_fs_def os_Stat_def)
      have "os_Stat p (files s) = Inl (New ''stat: no such file or directory'')"
        using None by (simp add: os_Stat_def)
      then show ?thesis
        unfolding y walk_post_def by auto
    next
      case (Some i)
      show ?thesis
      proof (cases "mode i AND 9 \<noteq> 1")
        case True
        let ?s1 = "snd (ask_fs (C_Chmod p (mode i OR 9)) (os_Chmod p (mode i OR 9))
            (s\<lparr>trace := trace s @ [C_Stat p]\<rparr>))"
        have w: "walk (filepath_Dir p) ?s1 = Some y"
          using prems(2) ne Some True by (simp add: ask_fs_def os_Stat_def)
        have f: "files ?s1 = files s \<or>
            (\<exists>i i'. files s p = Some i \<and> files ?s1 = (files s)(p \<mapsto> i'))"
          using Some by (auto simp: os_Chmod_def)
        from walk_post_step [OF prems(1) [OF w] _ _ f, of "mode i OR 9"] show ?thesis
          by simp
      next
        case False
        let ?s1 = "s\<lparr>trace := trace s @ [C_Stat p]\<rparr>"
        have w: "walk (filepath_Dir p) ?s1 = Some y"
          using prems(2) ne Some False by (simp add: ask_fs_def os_Stat_def)
        from walk_post_step [OF prems(1) [OF w], of s 0] show ?thesis
          by simp
      qed
    qed
  qed
  done





lemma Create_walk_files:
  "Create_walk (Abs cs) s = Some (Fallthrough, s') \<Longrightarrow>
     files s' = (\<lambda>q. if q \<in> set (visited cs) then map_option visit_inode (files s q)
                     else files s q)"
proof (induction "length cs" arbitrary: cs s)
  case 0
  then show ?case
    by (simp add: Create_walk_root visited_root)
next
  case (Suc n)
  then have ne: "Abs cs \<noteq> Abs []" and ne': "cs \<noteq> []"
    by auto
  show ?case
  proof (cases "files s (Abs cs)")
    case None
    from Create_walk_missing [OF ne None] Suc.prems show ?thesis
      by simp
  next
    case (Some i)
    from Create_walk_step [OF ne Some] obtain s1 where
      st: "Create_walk (Abs cs) s = Create_walk (Abs (butlast cs)) s1"
      and f1: "files s1 = (files s)(Abs cs \<mapsto> visit_inode i)"
      by auto
    have len: "n = length (butlast cs)"
      using Suc.hyps(2) by simp
    have "files s' = (\<lambda>q. if q \<in> set (visited (butlast cs))
        then map_option visit_inode (files s1 q) else files s1 q)"
      using Suc.hyps(1) [OF len] Suc.prems st by simp
    then show ?thesis
      using f1 Some ne' not_visited_above [OF ne']
      by (auto simp: visited_below fun_eq_iff)
  qed
qed

lemma Create_walk_completes:
  "(\<exists>s'. Create_walk (Abs cs) s = Some (Fallthrough, s')) \<longleftrightarrow>
     (\<forall>q \<in> set (visited cs). files s q \<noteq> None)"
proof (induction "length cs" arbitrary: cs s)
  case 0
  then show ?case
    by (simp add: Create_walk_root visited_root)
next
  case (Suc n)
  then have ne: "Abs cs \<noteq> Abs []" and ne': "cs \<noteq> []"
    by auto
  show ?case
  proof (cases "files s (Abs cs)")
    case None
    from Create_walk_missing [OF ne None] None ne' show ?thesis
      by (auto simp: visited_below)
  next
    case (Some i)
    from Create_walk_step [OF ne Some] obtain s1 where
      st: "Create_walk (Abs cs) s = Create_walk (Abs (butlast cs)) s1"
      and f1: "files s1 = (files s)(Abs cs \<mapsto> visit_inode i)"
      by auto
    have len: "n = length (butlast cs)"
      using Suc.hyps(2) by simp
    show ?thesis
      using Suc.hyps(1) [OF len, of s1] st f1 Some ne' not_visited_above [OF ne']
      by (auto simp: visited_below)
  qed
qed






text \<open>
  What the theorem leaves open, on the same file system: \<open>/a/b/c\<close> has the execute bit
  for others and not the one for the group, so \<open>mode&0011\<close> is 1, the guard
  \<open>mode&0011 != 1\<close> fails, and the directory keeps its mode, without the execute bit
  for the group (octal 0010 is 8).
\<close>

lemma Create_walk_other_only:
  "Create_walk (Abs [''a'', ''b'', ''c'']) (machine0 '''' fs_own) = Some (Fallthrough, s') \<Longrightarrow>
     map_option mode (files s' (Abs [''a'', ''b'', ''c''])) = Some (ModeDir OR 449) \<and>
     (ModeDir OR 449) AND 8 = 0"
  using Create_walk_files [of "[''a'', ''b'', ''c'']" "machine0 '''' fs_own" s']
  by (simp add: visited.simps [of "[''a'', ''b'', ''c'']"] visit_inode_def machine0_def
      fs_own_def ModeDir_def)

subsection \<open>Create: the disk image\<close>

text \<open>
  Claim C7.  When Create gets as far as the disk provisioner and the provisioner fails,
  Create returns the provisioner's error wrapped as "Error creating disk"; it has not
  asked for the domain to be defined, it has undone nothing (no destroy or undefine of
  network or domain), and the files are as the walk left them.
\<close>

theorem Create_disk_failure:
  assumes "ask C_createNetwork (createNetwork E (drv s)) s = (None, s1)"
      and "ask_fs (C_MkdirAll (StoreDir (drv s1))) (os_MkdirAll E (StoreDir (drv s1)) 493) s1
             = (None, s2)"
      and "Create_walk (StoreDir (drv s2)) s2 = Some (Fallthrough, s3)"
      and "ask C_MakeDiskImage
             (MakeDiskImage E (drv s3) (Boot2DockerURL (drv s3)) (DiskSize (drv s3))) s3
             = (Some err, s4)"
  shows "Create E s = Some (Some (Wrap err ''Error creating disk''), s4) \<and>
         C_createDomain \<notin> set (issued s s4) \<and>
         set (issued s s4) \<inter> {C_net_Destroy, C_net_Undefine, C_dom_Destroy, C_dom_Undefine} = {} \<and>
         files s4 = files s3"
proof -
  from Create_walk_post [OF assms(3)] obtain t where
    t: "trace s3 = trace s2 @ t" "\<forall>c \<in> set t. \<exists>p. c = C_Stat p \<or> (\<exists>m. c = C_Chmod p m)"
    by (auto simp: walk_post_def)
  from ask_eq [OF assms(1)] ask_fs_eq [OF assms(2)] ask_eq [OF assms(4)] t(1)
  have "trace s4 = trace s @ ([C_createNetwork, C_MkdirAll (StoreDir (drv s))] @ t @ [C_MakeDiskImage])"
    and f: "files s4 = files s3"
    by simp_all
  then have i: "issued s s4 = [C_createNetwork, C_MkdirAll (StoreDir (drv s))] @ t @ [C_MakeDiskImage]"
    by (simp only: issued_append)
  have "Create E s = Some (Some (Wrap err ''Error creating disk''), s4)"
    using assms by (simp add: Create_def)
  then show ?thesis
    using i f t(2) by auto
qed

text \<open>The theorem at a provisioner that runs out of disk space.\<close>

theorem Create_disk_failure_witness:
  "\<exists>s4. Create (mock DOMAIN_SHUTOFF None None (Some (New ''no space left on device'')))
         (machine0 '''' fs_foreign)
       = Some (Some (Wrap (New ''no space left on device'') ''Error creating disk''), s4) \<and>
     C_createDomain \<notin> set (trace s4)"
proof -
  let ?E = "mock DOMAIN_SHUTOFF None None (Some (New ''no space left on device''))"
  let ?s = "machine0 '''' fs_foreign"
  define s1 where "s1 = snd (ask C_createNetwork (createNetwork ?E (drv ?s)) ?s)"
  define s2 where
    "s2 = snd (ask_fs (C_MkdirAll (StoreDir (drv s1))) (os_MkdirAll ?E (StoreDir (drv s1)) 493) s1)"
  have h1: "ask C_createNetwork (createNetwork ?E (drv ?s)) ?s = (None, s1)"
    by (simp add: s1_def ask_def mock_def)
  have h2: "ask_fs (C_MkdirAll (StoreDir (drv s1))) (os_MkdirAll ?E (StoreDir (drv s1)) 493) s1
      = (None, s2)"
    by (simp add: s2_def ask_fs_def mock_def)
  have d2: "StoreDir (drv s2) = Abs [''machines'', ''minikube'']" and f2: "files s2 = fs_foreign"
    by (simp_all add: s2_def s1_def machine0_def mock_def)
  have "\<forall>q \<in> set (visited [''machines'', ''minikube'']). files s2 q \<noteq> None"
    by (simp add: visited.simps [of "[''machines'', ''minikube'']"]
        visited.simps [of "[''machines'']"] visited.simps [of "[]"] f2 fs_foreign_def)
  then obtain s3 where h3: "Create_walk (StoreDir (drv s2)) s2 = Some (Fallthrough, s3)"
    unfolding d2 using Create_walk_completes [of "[''machines'', ''minikube'']" s2]
    by blast
  define s4 where "s4 = snd (ask C_MakeDiskImage
      (MakeDiskImage ?E (drv s3) (Boot2DockerURL (drv s3)) (DiskSize (drv s3))) s3)"
  have h4: "ask C_MakeDiskImage
      (MakeDiskImage ?E (drv s3) (Boot2DockerURL (drv s3)) (DiskSize (drv s3))) s3
      = (Some (New ''no space left on device''), s4)"
    by (simp add: s4_def ask_def mock_def)
  have t: "trace ?s = []"
    by (simp add: machine0_def)
  from Create_disk_failure [OF h1 h2 h3 h4] t show ?thesis
    by (auto simp: issued_def)
qed

end
